theory Spec2Isabelle
  imports Main "HOL-Library.Sublist"
begin

section \<open>JavaScript values and string operations used by the sources\<close>

text \<open>
  Strings are lists of code units (\<^typ>\<open>string\<close>, with the 256 code units of
  \<^typ>\<open>char\<close>). A JavaScript value that can be
  \<^verbatim>\<open>undefined\<close> or \<^verbatim>\<open>null\<close> is an \<^typ>\<open>'a option\<close> with \<^term>\<open>None\<close> for the missing
  value. A number is an \<^typ>\<open>int option\<close>: \<^term>\<open>None\<close> is \<^verbatim>\<open>NaN\<close>, and the integers are
  exact (line numbers stay far below \<open>2^53\<close>, where a double is exact too).
  An exception is a value of \<open>error\<close>: \<^verbatim>\<open>assert.ok\<close> throws an AssertionError, and
  reading a property of \<^verbatim>\<open>undefined\<close> throws a TypeError.
\<close>

datatype error = AssertionError | TypeError

text \<open>\<^verbatim>\<open>s.startsWith(p)\<close>\<close>

definition startsWith :: "string \<Rightarrow> string \<Rightarrow> bool" where
  "startsWith s p = (take (length p) s = p)"

text \<open>
  \<^verbatim>\<open>s.indexOf(sub, from)\<close>: the least index at or after \<open>from\<close> where \<open>sub\<close> occurs,
  \<open>-1\<close> when there is none. \<open>findFrom sub s i\<close> searches the suffix \<open>s\<close> that starts
  at index \<open>i\<close>.
\<close>

fun findFrom :: "string \<Rightarrow> string \<Rightarrow> nat \<Rightarrow> nat option" where
  "findFrom sub [] i = (if sub = [] then Some i else None)"
| "findFrom sub (c # cs) i =
     (if startsWith (c # cs) sub then Some i else findFrom sub cs (Suc i))"

definition indexOf :: "string \<Rightarrow> string \<Rightarrow> int \<Rightarrow> int" where
  "indexOf s sub from =
     (let k = min (nat from) (length s)
      in case findFrom sub (drop k s) k of None \<Rightarrow> - 1 | Some i \<Rightarrow> int i)"

text \<open>
  \<^verbatim>\<open>s.slice(a, b)\<close> and \<^verbatim>\<open>s.slice(a)\<close>. Every call in the sources passes indices that
  are not negative; an end before the start gives the empty string.
\<close>

definition slice :: "string \<Rightarrow> nat \<Rightarrow> nat \<Rightarrow> string" where
  "slice s a b = take (b - a) (drop a s)"

definition sliceFrom :: "string \<Rightarrow> nat \<Rightarrow> string" where
  "sliceFrom s a = drop a s"

text \<open>
  \<^verbatim>\<open>s.split(c)\<close> for a separator of one character: never an empty array, the empty
  string gives \<open>['']\<close>.
\<close>

fun split :: "char \<Rightarrow> string \<Rightarrow> string list" where
  "split sep [] = [[]]"
| "split sep (c # cs) =
     (if c = sep then [] # split sep cs
      else (case split sep cs of [] \<Rightarrow> [[c]] | p # ps \<Rightarrow> (c # p) # ps))"

text \<open>
  Array destructuring \<^verbatim>\<open>[a, b] = xs\<close> reads \<open>xs[0]\<close> and \<open>xs[1]\<close>; an index past the
  end reads \<^verbatim>\<open>undefined\<close>.
\<close>

definition at :: "'a list \<Rightarrow> nat \<Rightarrow> 'a option" where
  "at xs i = (if i < length xs then Some (xs ! i) else None)"

text \<open>
  \<^verbatim>\<open>parseInt(x, 10)\<close>: \<^verbatim>\<open>undefined\<close> reads as the string \<open>undefined\<close>, leading white
  space is skipped, one sign is read, then the longest run of decimal digits; no digit
  gives \<^verbatim>\<open>NaN\<close>. White space is the ASCII white space here.
\<close>

definition isSpace :: "char \<Rightarrow> bool" where
  "isSpace c = (c \<in> set [CHR 0x09, CHR 0x0A, CHR 0x0B, CHR 0x0C, CHR 0x0D, CHR '' ''])"

definition isDigit :: "char \<Rightarrow> bool" where
  "isDigit c = (48 \<le> (of_char c :: nat) \<and> (of_char c :: nat) \<le> 57)"

definition digitVal :: "char \<Rightarrow> int" where
  "digitVal c = int (of_char c) - 48"

definition digitsVal :: "string \<Rightarrow> int" where
  "digitsVal ds = foldl (\<lambda>n c. 10 * n + digitVal c) 0 ds"

definition parseInt :: "string option \<Rightarrow> int option" where
  "parseInt x =
     (case x of
        None \<Rightarrow> None
      | Some str \<Rightarrow>
          (let s = dropWhile isSpace str;
               neg = startsWith s ''-'';
               s' = (if startsWith s ''-'' \<or> startsWith s ''+'' then drop 1 s else s);
               ds = takeWhile isDigit s'
           in if ds = [] then None
              else Some (if neg then - digitsVal ds else digitsVal ds)))"

text \<open>
  \<^verbatim>\<open>s.replace(re, '')\<close> for a global regular expression \<open>re\<close>, which is given by
  its matcher: \<open>re s\<close> is the length of the match that starts at the head of \<open>s\<close>,
  or \<^term>\<open>None\<close>. The scan goes left to right, drops each match and goes on after it; an
  empty match keeps the next character.
\<close>

fun replaceAll :: "(string \<Rightarrow> nat option) \<Rightarrow> string \<Rightarrow> string" where
  "replaceAll re [] = []"
| "replaceAll re (c # cs) =
     (case re (c # cs) of
        None \<Rightarrow> c # replaceAll re cs
      | Some n \<Rightarrow> (if n = 0 then c # replaceAll re cs else replaceAll re (drop (n - 1) cs)))"

subsection \<open>Regular expressions with capture groups\<close>

text \<open>
  The fragment of JavaScript's regular expressions that \<^verbatim>\<open>BINARY_FILES_DIFF_REGEX\<close>
  uses: a literal, the greedy \<^verbatim>\<open>.*\<close>, alternation, sequence, a capture group and the
  end anchor. \<open>rxm r (s, caps)\<close> lists, in the order in which a backtracking matcher
  tries them, the ways \<open>r\<close> matches a prefix of \<open>s\<close>: what is left of \<open>s\<close>, and the
  groups captured so far. The dot matches no line terminator.
\<close>

datatype rx = Lit string | AnyStar | Alt rx rx | Seq rx rx | Grp nat rx | Eos

definition isLineTerminator :: "char \<Rightarrow> bool" where
  "isLineTerminator c = (c = CHR 0x0A \<or> c = CHR 0x0D)"

fun rxm :: "rx \<Rightarrow> string \<times> (nat \<times> string) list \<Rightarrow> (string \<times> (nat \<times> string) list) list" where
  "rxm (Lit p) (s, caps) = (if startsWith s p then [(drop (length p) s, caps)] else [])"
| "rxm AnyStar (s, caps) =
     map (\<lambda>k. (drop k s, caps))
       (rev [0 ..< Suc (length (takeWhile (\<lambda>c. \<not> isLineTerminator c) s))])"
| "rxm (Alt a b) (s, caps) = rxm a (s, caps) @ rxm b (s, caps)"
| "rxm (Seq a b) (s, caps) = concat (map (rxm b) (rxm a (s, caps)))"
| "rxm (Grp n r) (s, caps) =
     map (\<lambda>(s', caps'). (s', (n, take (length s - length s') s) # caps')) (rxm r (s, caps))"
| "rxm Eos (s, caps) = (if s = [] then [(s, caps)] else [])"

text \<open>
  \<^verbatim>\<open>line.match(re)\<close> for a pattern that starts with \<^verbatim>\<open>^\<close> and has two groups: \<^verbatim>\<open>null\<close>
  (\<^term>\<open>None\<close>) or the two groups of the first match; a group that took no part in the
  match is \<^verbatim>\<open>undefined\<close>.
\<close>

definition matchGroups :: "rx \<Rightarrow> string \<Rightarrow> (string option \<times> string option) option" where
  "matchGroups r line =
     (case rxm r (line, []) of
        [] \<Rightarrow> None
      | (rest, caps) # others \<Rightarrow> Some (map_of caps 1, map_of caps 2))"

section \<open>The side-by-side parser (iterSideBySideDiffsFormatted)\<close>

text \<open>
  \<^verbatim>\<open>/^Binary files (?:a\/(.*)|\/dev\/null) and (?:b\/(.*)|\/dev\/null) differ$/\<close>
\<close>

definition BINARY_FILES_DIFF_REGEX :: rx where
  "BINARY_FILES_DIFF_REGEX =
     Seq (Lit ''Binary files '')
    (Seq (Alt (Seq (Lit ''a/'') (Grp 1 AnyStar)) (Lit ''/dev/null''))
    (Seq (Lit '' and '')
    (Seq (Alt (Seq (Lit ''b/'') (Grp 2 AnyStar)) (Lit ''/dev/null''))
    (Seq (Lit '' differ'') Eos))))"

datatype region = Unknown | Commit | Diff | Hunk

text \<open>
  The generator's local variables. The file names are declared \<^verbatim>\<open>string\<close>, but the
  destructuring of a match can store \<^verbatim>\<open>undefined\<close> in them, so they are options; the
  hunk lines are \<^verbatim>\<open>(string | null)[]\<close>.
\<close>

record parser =
  state :: region
  fileNameA :: "string option"
  fileNameB :: "string option"
  startA :: "int option"
  startB :: "int option"
  hunkHeaderLine :: string
  hunkLinesA :: "string option list"
  hunkLinesB :: "string option list"

definition initial :: parser where
  "initial = \<lparr>state = Unknown, fileNameA = Some [], fileNameB = Some [],
     startA = Some (- 1), startB = Some (- 1), hunkHeaderLine = [],
     hunkLinesA = [], hunkLinesB = []\<rparr>"

text \<open>
  What the generator yields. The formatters \<^verbatim>\<open>iterFormatFileName\<close>, \<^verbatim>\<open>iterFormatHunk\<close>
  and \<^verbatim>\<open>iterFormatCommitLine\<close> are imported from other modules; a call of one is
  recorded with its arguments (but the context), in the place of what it yields.
\<close>

datatype event =
    IterFormatFileName "string option" "string option"
  | IterFormatHunk string "string option" "string option"
      "string option list" "string option list" "int option" "int option"
  | HORIZONTAL_SEPARATOR
  | AppendString string
  | IterFormatCommitLine string

definition yieldFileName :: "parser \<Rightarrow> event list" where
  "yieldFileName s = [IterFormatFileName (fileNameA s) (fileNameB s)]"

definition yieldHunk :: "parser \<Rightarrow> event list \<times> parser" where
  "yieldHunk s =
     ([IterFormatHunk (hunkHeaderLine s) (fileNameA s) (fileNameB s)
         (hunkLinesA s) (hunkLinesB s) (startA s) (startB s)],
      s\<lparr>hunkLinesA := [], hunkLinesB := []\<rparr>)"

text \<open>
  The header body of a hunk marker line: the two \<^verbatim>\<open>indexOf\<close> calls, the two
  assertions and the \<^verbatim>\<open>slice\<close>, which both parsers share word for word.
\<close>

definition hunkHeaderOf :: "string \<Rightarrow> error + string" where
  "hunkHeaderOf line =
     (let hunkHeaderStart = indexOf line ''@@ '' 0;
          hunkHeaderEnd = indexOf line '' @@'' (hunkHeaderStart + 1)
      in if hunkHeaderStart \<ge> 0
         then (if hunkHeaderEnd > hunkHeaderStart
               then Inr (slice line (nat (hunkHeaderStart + 3)) (nat hunkHeaderEnd))
               else Inl AssertionError)
         else Inl AssertionError)"

text \<open>
  The rest of the marker branch: split the body at spaces and each part at commas,
  check the signs, read the two start numbers. \<^verbatim>\<open>bHeader.split\<close> on a body with no
  space reads a property of \<^verbatim>\<open>undefined\<close>.
\<close>

definition parseHunkHeader :: "string \<Rightarrow> error + (int option \<times> int option)" where
  "parseHunkHeader line =
     (case hunkHeaderOf line of
        Inl e \<Rightarrow> Inl e
      | Inr hunkHeader \<Rightarrow>
          (case at (split CHR '' '' hunkHeader) 0 of
             None \<Rightarrow> Inl TypeError
           | Some aHeader \<Rightarrow>
               (case at (split CHR '' '' hunkHeader) 1 of
                  None \<Rightarrow> Inl TypeError
                | Some bHeader \<Rightarrow>
                    (case (at (split CHR '','' aHeader) 0, at (split CHR '','' bHeader) 0) of
                       (Some startAString, Some startBString) \<Rightarrow>
                         (if startsWith startAString ''-''
                          then (if startsWith startBString ''+''
                                then Inr (parseInt (Some (sliceFrom startAString 1)),
                                          parseInt (Some (sliceFrom startBString 1)))
                                else Inl AssertionError)
                          else Inl AssertionError)
                     | _ \<Rightarrow> Inl TypeError))))"

text \<open>The two \<^verbatim>\<open>while\<close> loops that push \<^verbatim>\<open>null\<close> until a list is as long as the other.\<close>

function pushNulls :: "string option list \<Rightarrow> nat \<Rightarrow> string option list" where
  "pushNulls xs n = (if length xs < n then pushNulls (xs @ [None]) n else xs)"
  by pat_completeness auto
termination
  by (relation "measure (\<lambda>(xs, n). n - length xs)") auto

text \<open>\<^verbatim>\<open>case 'hunk'\<close> of the switch.\<close>

definition hunkCase :: "parser \<Rightarrow> string \<Rightarrow> parser" where
  "hunkCase s line =
     (if startsWith line ''-'' then s\<lparr>hunkLinesA := hunkLinesA s @ [Some line]\<rparr>
      else if startsWith line ''+'' then s\<lparr>hunkLinesB := hunkLinesB s @ [Some line]\<rparr>
      else (let a = pushNulls (hunkLinesA s) (length (hunkLinesB s));
                b = pushNulls (hunkLinesB s) (length a)
            in s\<lparr>hunkLinesA := a @ [Some line], hunkLinesB := b @ [Some line]\<rparr>))"

text \<open>\<^verbatim>\<open>case 'diff'\<close> of the switch.\<close>

definition diffCase :: "parser \<Rightarrow> string \<Rightarrow> parser" where
  "diffCase s line =
     (if startsWith line ''--- a/'' then s\<lparr>fileNameA := Some (sliceFrom line (length ''--- a/''))\<rparr>
      else if startsWith line ''+++ b/'' then s\<lparr>fileNameB := Some (sliceFrom line (length ''+++ b/''))\<rparr>
      else if startsWith line ''rename from ''
        then s\<lparr>fileNameA := Some (sliceFrom line (length ''rename from ''))\<rparr>
      else if startsWith line ''rename to ''
        then s\<lparr>fileNameB := Some (sliceFrom line (length ''rename to ''))\<rparr>
      else if startsWith line ''Binary files''
        then (case matchGroups BINARY_FILES_DIFF_REGEX line of
                None \<Rightarrow> s
              | Some (a, b) \<Rightarrow> s\<lparr>fileNameA := a, fileNameB := b\<rparr>)
      else s)"

text \<open>The switch on the state, after the transitions.\<close>

definition handleState :: "parser \<Rightarrow> string \<Rightarrow> string \<Rightarrow> event list \<times> parser" where
  "handleState s rawLine line =
     (case state s of
        Unknown \<Rightarrow> ([AppendString rawLine], s)
      | Commit \<Rightarrow> ([IterFormatCommitLine line], s)
      | Diff \<Rightarrow> ([], diffCase s line)
      | Hunk \<Rightarrow> ([], hunkCase s line))"

text \<open>
  One turn of the loop for a raw line and its sanitized form. The result is what the
  turn yields and either the exception that ends the generator or the next state.
\<close>

definition processLine :: "parser \<Rightarrow> string \<Rightarrow> string \<Rightarrow> event list \<times> (error + parser)" where
  "processLine s rawLine line =
     (if startsWith line ''commit '' then
        (let (out, s1) =
               (if state s = Diff then (yieldFileName s, s)
                else if state s = Hunk
                  then (fst (yieldHunk s) @ [HORIZONTAL_SEPARATOR], snd (yieldHunk s))
                else ([], s));
             (out2, s2) = handleState (s1\<lparr>state := Commit\<rparr>) rawLine line
         in (out @ out2, Inr s2))
      else if startsWith line ''diff --git'' then
        (let (out, s1) =
               (if state s = Diff then (yieldFileName s, s)
                else if state s = Hunk then yieldHunk s
                else ([], s));
             (out2, s2) =
               handleState (s1\<lparr>state := Diff, fileNameA := Some [], fileNameB := Some []\<rparr>)
                 rawLine line
         in (out @ out2, Inr s2))
      else if startsWith line ''@@ '' then
        (let (out, s1) =
               (if state s = Diff then (yieldFileName s, s)
                else if state s = Hunk then yieldHunk s
                else ([], s))
         in case parseHunkHeader line of
              Inl e \<Rightarrow> (out, Inl e)
            | Inr (a, b) \<Rightarrow>
                (out, Inr (s1\<lparr>hunkHeaderLine := line, startA := a, startB := b, state := Hunk\<rparr>)))
      else (let (out, s') = handleState s rawLine line in (out, Inr s')))"

text \<open>
  The loop over the lines, from a given state: the events yielded, and the exception
  that stopped it or the state at the end of the input. \<open>re\<close> is the matcher of
  \<^verbatim>\<open>ANSI_COLOR_CODE_REGEX\<close>.
\<close>

fun feed :: "(string \<Rightarrow> nat option) \<Rightarrow> parser \<Rightarrow> string list \<Rightarrow> event list \<times> (error + parser)" where
  "feed re s [] = ([], Inr s)"
| "feed re s (rawLine # rest) =
     (case processLine s rawLine (replaceAll re rawLine) of
        (out, Inl e) \<Rightarrow> (out, Inl e)
      | (out, Inr s') \<Rightarrow> (out @ fst (feed re s' rest), snd (feed re s' rest)))"

text \<open>The flush after the loop.\<close>

definition atEnd :: "parser \<Rightarrow> event list" where
  "atEnd s =
     (if state s = Diff then yieldFileName s
      else if state s = Hunk then fst (yieldHunk s)
      else [])"

text \<open>
  The whole generator on a finite input: everything it yields, and the exception it
  ends with, if any.
\<close>

definition iterSideBySideDiffsFormatted ::
  "(string \<Rightarrow> nat option) \<Rightarrow> string list \<Rightarrow> event list \<times> error option" where
  "iterSideBySideDiffsFormatted re lines =
     (case feed re initial lines of
        (out, Inl e) \<Rightarrow> (out, Some e)
      | (out, Inr s) \<Rightarrow> (out @ atEnd s, None))"

section \<open>The unified-diff program (index.ts)\<close>

subsection \<open>iterateLinesWithoutAnsiColors and iterateReadableLinesAsync\<close>

definition iterateLinesWithoutAnsiColors :: "(string \<Rightarrow> nat option) \<Rightarrow> string list \<Rightarrow> string list" where
  "iterateLinesWithoutAnsiColors re lines = map (replaceAll re) lines"

text \<open>\<^verbatim>\<open>chunk.toString().split(/\r\n|\n/)\<close>\<close>

definition consHead :: "char \<Rightarrow> string list \<Rightarrow> string list" where
  "consHead c ls = (case ls of [] \<Rightarrow> [[c]] | p # ps \<Rightarrow> (c # p) # ps)"

fun splitNewlines :: "string \<Rightarrow> string list" where
  "splitNewlines [] = [[]]"
| "splitNewlines [c] = (if c = CHR 0x0A then [[], []] else [[c]])"
| "splitNewlines (c # d # cs) =
     (if c = CHR 0x0D \<and> d = CHR 0x0A then [] # splitNewlines cs
      else if c = CHR 0x0A then [] # splitNewlines (d # cs)
      else consHead c (splitNewlines (d # cs)))"

text \<open>
  The inner \<^verbatim>\<open>for\<close> loop over the lines of one chunk, from index \<open>i\<close> on; \<open>n\<close> is
  \<^verbatim>\<open>lines.length\<close>. It gives the lines yielded and \<^verbatim>\<open>prevLine\<close> after the chunk.
  \<^verbatim>\<open>prevLine\<close> is truthy when it is a string that is not empty.
\<close>

definition truthy :: "string option \<Rightarrow> bool" where
  "truthy p = (case p of None \<Rightarrow> False | Some x \<Rightarrow> x \<noteq> [])"

fun chunkLoop :: "nat \<Rightarrow> nat \<Rightarrow> string list \<Rightarrow> string option \<Rightarrow> string list \<times> string option" where
  "chunkLoop i n [] prevLine = ([], prevLine)"
| "chunkLoop i n (line # rest) prevLine =
     (if i = 0 \<and> truthy prevLine
        then (((case prevLine of None \<Rightarrow> [] | Some p \<Rightarrow> p) @ line)
                # fst (chunkLoop (Suc i) n rest prevLine),
              snd (chunkLoop (Suc i) n rest prevLine))
      else if int i = int n - 1 \<and> length line > 0
        then chunkLoop (Suc i) n rest (Some line)
      else (line # fst (chunkLoop (Suc i) n rest prevLine),
            snd (chunkLoop (Suc i) n rest prevLine)))"

fun readLoop :: "string option \<Rightarrow> string list \<Rightarrow> string list \<times> string option" where
  "readLoop prevLine [] = ([], prevLine)"
| "readLoop prevLine (chunk # chunks) =
     (let lines = splitNewlines chunk;
          r = chunkLoop 0 (length lines) lines prevLine;
          r' = readLoop (snd r) chunks
      in (fst r @ fst r', snd r'))"

text \<open>The generator on a finite stream of chunks: every line it yields.\<close>

definition iterateReadableLinesAsync :: "string list \<Rightarrow> string list" where
  "iterateReadableLinesAsync chunks =
     (let r = readLoop None chunks
      in fst r @ (case snd r of None \<Rightarrow> [] | Some p \<Rightarrow> (if length p > 0 then [p] else [])))"

subsection \<open>formatHunkLine and iterateUnifiedDiff\<close>

text \<open>
  \<^verbatim>\<open>formatHunkLine(lineNo, line)\<close> reads \<^verbatim>\<open>line[0]\<close>, which throws when the line is
  \<^verbatim>\<open>undefined\<close>. Its string is colour and padding over the three parts kept here: the
  number (shown right-aligned in five columns), the prefix character and the text after
  it (cut and padded to \<^verbatim>\<open>LINE_WIDTH\<close>, which comes from the terminal).
\<close>

datatype color = DELETED_LINE_COLOR | INSERTED_LINE_COLOR | UNMODIFIED_LINE_COLOR

record cell =
  lineColor :: color
  lineNo :: "int option"
  linePrefix :: string
  lineWithoutPrefix :: string

definition cellOf :: "int option \<Rightarrow> string \<Rightarrow> cell" where
  "cellOf n line =
     \<lparr>lineColor =
        (if take 1 line = ''-'' then DELETED_LINE_COLOR
         else if take 1 line = ''+'' then INSERTED_LINE_COLOR
         else UNMODIFIED_LINE_COLOR),
      lineNo = n,
      linePrefix = (if line = [] then '' '' else take 1 line),
      lineWithoutPrefix = drop 1 line\<rparr>"

definition formatHunkLine :: "int option \<Rightarrow> string option \<Rightarrow> error + cell" where
  "formatHunkLine n l = (case l of None \<Rightarrow> Inl TypeError | Some line \<Rightarrow> Inr (cellOf n line))"

datatype ustate = UCommit | UDiff | UHunk

record unified =
  u_state :: ustate
  u_startA :: "int option"
  u_deltaA :: "int option"
  u_startB :: "int option"
  u_deltaB :: "int option"
  hunkStartLine :: "string option"
  hunkLines :: "string list"

definition initialU :: unified where
  "initialU = \<lparr>u_state = UCommit, u_startA = Some (- 1), u_deltaA = Some (- 1),
     u_startB = Some (- 1), u_deltaB = Some (- 1), hunkStartLine = None, hunkLines = []\<rparr>"

text \<open>
  What \<^verbatim>\<open>iterateUnifiedDiff\<close> yields: the hunk's header line (padded to the screen width
  and dimmed), a row of two formatted cells, a line passed through, a file name
  (\<^verbatim>\<open>line.slice(6)\<close>, padded and coloured).
\<close>

datatype yielded =
    HUNK_START_COLOR string
  | Row cell cell
  | Line string
  | FILE_NAME_COLOR string

text \<open>The \<^verbatim>\<open>for\<close> loop that sorts the hunk's lines into \<^verbatim>\<open>linesA\<close> and \<^verbatim>\<open>linesB\<close>.\<close>

fun sortLines :: "string list \<Rightarrow> string list \<times> string list \<Rightarrow> string list \<times> string list" where
  "sortLines [] (linesA, linesB) = (linesA, linesB)"
| "sortLines (line # rest) (linesA, linesB) =
     (if startsWith line ''-'' then sortLines rest (linesA @ [line], linesB)
      else if startsWith line ''+'' then sortLines rest (linesA, linesB @ [line])
      else sortLines rest (linesA @ [line], linesB @ [line]))"

text \<open>\<^verbatim>\<open>offset < delta\<close> and \<^verbatim>\<open>lineNo++\<close> on numbers: a comparison with \<^verbatim>\<open>NaN\<close> is false.\<close>

definition below :: "nat \<Rightarrow> int option \<Rightarrow> bool" where
  "below offset delta = (case delta of None \<Rightarrow> False | Some d \<Rightarrow> int offset < d)"

definition incr :: "int option \<Rightarrow> int option" where
  "incr n = map_option (\<lambda>k. k + 1) n"

text \<open>
  The \<^verbatim>\<open>while\<close> loop of \<^verbatim>\<open>yieldHunkIfNeeded\<close>, from \<open>offset\<close> on: the rows yielded, and
  the exception that cut it short, if any.
\<close>

function hunkRows ::
  "nat \<Rightarrow> int option \<Rightarrow> int option \<Rightarrow> string list \<Rightarrow> string list \<Rightarrow> int option \<Rightarrow> int option
     \<Rightarrow> yielded list \<times> error option" where
  "hunkRows offset lineNoA lineNoB linesA linesB deltaA deltaB =
     (if below offset deltaA \<or> below offset deltaB then
        (let lineA = (if below offset deltaA then at linesA offset else Some []);
             lineNoA' = (if below offset deltaA then incr lineNoA else lineNoA);
             lineB = (if below offset deltaB then at linesB offset else Some []);
             lineNoB' = (if below offset deltaB then incr lineNoB else lineNoB)
         in case formatHunkLine lineNoA' lineA of
              Inl e \<Rightarrow> ([], Some e)
            | Inr cellA \<Rightarrow>
                (case formatHunkLine lineNoB' lineB of
                   Inl e \<Rightarrow> ([], Some e)
                 | Inr cellB \<Rightarrow>
                     (Row cellA cellB
                        # fst (hunkRows (Suc offset) lineNoA' lineNoB' linesA linesB deltaA deltaB),
                      snd (hunkRows (Suc offset) lineNoA' lineNoB' linesA linesB deltaA deltaB))))
      else ([], None))"
  by pat_completeness auto
termination
  by (relation "measure (\<lambda>(offset, lineNoA, lineNoB, linesA, linesB, deltaA, deltaB).
        nat (max (case deltaA of None \<Rightarrow> 0 | Some d \<Rightarrow> d) (case deltaB of None \<Rightarrow> 0 | Some d \<Rightarrow> d))
          - offset)")
     (auto simp: below_def split: option.splits)

definition yieldHunkIfNeeded :: "unified \<Rightarrow> yielded list \<times> (error + unified)" where
  "yieldHunkIfNeeded s =
     (if length (hunkLines s) = 0 then ([], Inr s)
      else (case hunkStartLine s of
              None \<Rightarrow> ([], Inl TypeError)
            | Some h \<Rightarrow>
                (let (linesA, linesB) = sortLines (hunkLines s) ([], []);
                     r = hunkRows 0 (u_startA s) (u_startB s) linesA linesB (u_deltaA s) (u_deltaB s)
                 in (HUNK_START_COLOR h # fst r,
                     (case snd r of
                        Some e \<Rightarrow> Inl e
                      | None \<Rightarrow> Inr (s\<lparr>hunkLines := []\<rparr>))))))"

text \<open>
  The header of the unified parser: as in the side-by-side parser, and the two counts
  after the commas are read too.
\<close>

definition parseHunkHeaderU ::
  "string \<Rightarrow> error + (int option \<times> int option \<times> int option \<times> int option)" where
  "parseHunkHeaderU line =
     (case hunkHeaderOf line of
        Inl e \<Rightarrow> Inl e
      | Inr hunkHeader \<Rightarrow>
          (case at (split CHR '' '' hunkHeader) 0 of
             None \<Rightarrow> Inl TypeError
           | Some aHeader \<Rightarrow>
               (case at (split CHR '' '' hunkHeader) 1 of
                  None \<Rightarrow> Inl TypeError
                | Some bHeader \<Rightarrow>
                    (case (at (split CHR '','' aHeader) 0, at (split CHR '','' bHeader) 0) of
                       (Some startAString, Some startBString) \<Rightarrow>
                         (if startsWith startAString ''-''
                          then (if startsWith startBString ''+''
                                then Inr (parseInt (Some (sliceFrom startAString 1)),
                                          parseInt (at (split CHR '','' aHeader) 1),
                                          parseInt (Some (sliceFrom startBString 1)),
                                          parseInt (at (split CHR '','' bHeader) 1))
                                else Inl AssertionError)
                          else Inl AssertionError)
                     | _ \<Rightarrow> Inl TypeError))))"

text \<open>The switch on the state.\<close>

definition handleStateU :: "unified \<Rightarrow> string \<Rightarrow> yielded list \<times> unified" where
  "handleStateU s line =
     (case u_state s of
        UCommit \<Rightarrow> ([Line line], s)
      | UDiff \<Rightarrow> ((if startsWith line ''---'' then [FILE_NAME_COLOR (sliceFrom line 6)] else []), s)
      | UHunk \<Rightarrow> ([], s\<lparr>hunkLines := hunkLines s @ [line]\<rparr>))"

text \<open>One turn of the loop of \<^verbatim>\<open>iterateUnifiedDiff\<close>.\<close>

definition processLineU :: "unified \<Rightarrow> string \<Rightarrow> yielded list \<times> (error + unified)" where
  "processLineU s line =
     (if startsWith line ''diff '' then
        (case yieldHunkIfNeeded s of
           (out, Inl e) \<Rightarrow> (out, Inl e)
         | (out, Inr s1) \<Rightarrow>
             (out @ fst (handleStateU (s1\<lparr>u_state := UDiff\<rparr>) line),
              Inr (snd (handleStateU (s1\<lparr>u_state := UDiff\<rparr>) line))))
      else if startsWith line ''@@'' then
        (case yieldHunkIfNeeded s of
           (out, Inl e) \<Rightarrow> (out, Inl e)
         | (out, Inr s1) \<Rightarrow>
             (case parseHunkHeaderU line of
                Inl e \<Rightarrow> (out, Inl e)
              | Inr (a, da, b, db) \<Rightarrow>
                  (out, Inr (s1\<lparr>hunkStartLine := Some line, u_startA := a, u_deltaA := da,
                               u_startB := b, u_deltaB := db, u_state := UHunk\<rparr>))))
      else (fst (handleStateU s line), Inr (snd (handleStateU s line))))"

fun feedU :: "unified \<Rightarrow> string list \<Rightarrow> yielded list \<times> (error + unified)" where
  "feedU s [] = ([], Inr s)"
| "feedU s (line # rest) =
     (case processLineU s line of
        (out, Inl e) \<Rightarrow> (out, Inl e)
      | (out, Inr s') \<Rightarrow> (out @ fst (feedU s' rest), snd (feedU s' rest)))"

text \<open>
  The whole generator on a finite input: the loop, then \<^verbatim>\<open>yieldHunkIfNeeded\<close> once
  more. It gives everything yielded and the exception it ends with, if any.
\<close>

definition iterateUnifiedDiff :: "string list \<Rightarrow> yielded list \<times> error option" where
  "iterateUnifiedDiff lines =
     (case feedU initialU lines of
        (out, Inl e) \<Rightarrow> (out, Some e)
      | (out, Inr s) \<Rightarrow>
          (out @ fst (yieldHunkIfNeeded s),
           (case snd (yieldHunkIfNeeded s) of Inl e \<Rightarrow> Some e | Inr s' \<Rightarrow> None)))"

section \<open>The escape-sequence pattern\<close>

text \<open>
  The bytes of a control sequence: parameter bytes (\<open>0x30\<close> to \<open>0x3F\<close>), intermediate
  bytes (\<open>0x20\<close> to \<open>0x2F\<close>) and final bytes (\<open>0x40\<close> to \<open>0x7E\<close>).
\<close>

definition isParameter :: "char \<Rightarrow> bool" where
  "isParameter c = (48 \<le> (of_char c :: nat) \<and> (of_char c :: nat) \<le> 63)"

definition isIntermediate :: "char \<Rightarrow> bool" where
  "isIntermediate c = (32 \<le> (of_char c :: nat) \<and> (of_char c :: nat) \<le> 47)"

definition isFinal :: "char \<Rightarrow> bool" where
  "isFinal c = (64 \<le> (of_char c :: nat) \<and> (of_char c :: nat) \<le> 126)"

text \<open>
  Modelled from the spec: \<^verbatim>\<open>ANSI_COLOR_CODE_REGEX\<close> is \<^verbatim>\<open>ansiRegex()\<close> of the package
  ansi-regex, whose code is not among the sources. The spec calls what it matches ANSI
  escape sequences and ANSI CSI sequences. A CSI sequence is the escape character and
  an opening bracket, then parameter bytes, intermediate bytes and one final byte. The
  matcher gives the length of the sequence at the head of the string. Both parsers take
  the matcher as a parameter \<open>re\<close>; this one is used where a pattern has to be run.
\<close>

definition ANSI_COLOR_CODE_REGEX :: "string \<Rightarrow> nat option" where
  "ANSI_COLOR_CODE_REGEX s =
     (case s of
        c # d # rest \<Rightarrow>
          (if c = CHR 0x1B \<and> d = CHR ''[''
           then (let ps = takeWhile isParameter rest;
                     ims = takeWhile isIntermediate (drop (length ps) rest)
                 in case drop (length ps + length ims) rest of
                      [] \<Rightarrow> None
                    | f # fs \<Rightarrow>
                        (if isFinal f then Some (3 + length ps + length ims) else None))
           else None)
      | _ \<Rightarrow> None)"

text \<open>
  The three tests that send a line of the side-by-side parser into a transition branch,
  and the two of the unified-diff parser.
\<close>

definition isMarker :: "string \<Rightarrow> bool" where
  "isMarker line =
     (startsWith line ''commit '' \<or> startsWith line ''diff --git'' \<or> startsWith line ''@@ '')"

definition isMarkerU :: "string \<Rightarrow> bool" where
  "isMarkerU line = (startsWith line ''diff '' \<or> startsWith line ''@@'')"

text \<open>
  An invariant of the unified-diff parser: lines are collected only after a marker line
  has set \<^verbatim>\<open>hunkStartLine\<close>.
\<close>

definition headerKnown :: "unified \<Rightarrow> bool" where
  "headerKnown s =
     (if u_state s = UHunk \<or> hunkLines s \<noteq> [] then hunkStartLine s \<noteq> None else True)"





section \<open>Properties\<close>

subsection \<open>Auxiliary facts\<close>

lemma startsWith_Nil: "startsWith s []"
  by (simp add: startsWith_def)

lemma startsWith_Cons:
  "startsWith s (c # p) = (case s of [] \<Rightarrow> False | d # t \<Rightarrow> d = c \<and> startsWith t p)"
  by (cases s) (auto simp: startsWith_def)

lemmas startsWith_simps = startsWith_Nil startsWith_Cons

lemma feedU_append:
  "feedU s xs = (o1, Inr s1) \<Longrightarrow>
   feedU s (xs @ ys) = (o1 @ fst (feedU s1 ys), snd (feedU s1 ys))"
proof (induction xs arbitrary: s o1)
  case Nil
  then show ?case by simp
next
  case (Cons x xs)
  obtain out r where step: "processLineU s x = (out, r)" by (cases "processLineU s x")
  show ?case
  proof (cases r)
    case (Inl e)
    with Cons.prems step show ?thesis by simp
  next
    case (Inr s')
    obtain o2 r2 where rest: "feedU s' xs = (o2, r2)" by (cases "feedU s' xs")
    from Cons.prems step Inr rest have r2: "r2 = Inr s1" and o1: "o1 = out @ o2" by auto
    from Cons.IH[OF rest[unfolded r2]] step Inr o1 show ?thesis by simp
  qed
qed

lemma yieldHunkIfNeeded_empty:
  "hunkLines s = [] \<Longrightarrow> yieldHunkIfNeeded s = ([], Inr s)"
  by (simp add: yieldHunkIfNeeded_def)

lemma yieldHunkIfNeeded_clears:
  "yieldHunkIfNeeded s = (out, Inr s1) \<Longrightarrow> hunkLines s1 = []"
  by (auto simp: yieldHunkIfNeeded_def Let_def split: if_splits option.splits prod.splits)

lemma header_step:
  assumes "startsWith h ''@@''" and "processLineU s h = (out, Inr s1)"
  shows "hunkLines s1 = [] \<and> out = fst (yieldHunkIfNeeded s)"
proof -
  have nd: "\<not> startsWith h ''diff ''"
    using assms(1) by (auto simp: startsWith_simps split: list.splits)
  obtain o1 r1 where y: "yieldHunkIfNeeded s = (o1, r1)" by (cases "yieldHunkIfNeeded s")
  from assms nd y obtain s0 where r1: "r1 = Inr s0"
    by (cases r1) (auto simp: processLineU_def)
  from yieldHunkIfNeeded_clears[OF y[unfolded r1]] have "hunkLines s0 = []" .
  with assms nd y r1 show ?thesis
    by (auto simp: processLineU_def split: sum.splits prod.splits)
qed

subsection \<open>An empty hunk in the unified-diff program\<close>

text \<open>
  Claim C10. In \<^verbatim>\<open>iterateUnifiedDiff\<close>, a hunk whose marker line \<open>h\<close> is followed at once
  by another marker or by the end of the stream yields nothing, not even its header
  line. The turn for \<open>h\<close> yields only the flush of what was open before; after it the
  list of collected lines is empty, so \<^verbatim>\<open>yieldHunkIfNeeded\<close> returns at once: at the next
  marker \<open>m\<close> nothing is yielded, and at the end of the stream the whole output is that
  of the input without \<open>h\<close>.
\<close>

theorem empty_hunk_yields_nothing:
  assumes "startsWith h ''@@''" and "processLineU s h = (out, Inr s1)"
  shows "out = fst (yieldHunkIfNeeded s)
       \<and> yieldHunkIfNeeded s1 = ([], Inr s1)
       \<and> (startsWith m ''diff '' \<or> startsWith m ''@@'' \<longrightarrow> fst (processLineU s1 m) = [])
       \<and> (feedU initialU pre = (o1, Inr s) \<longrightarrow> iterateUnifiedDiff (pre @ [h]) = iterateUnifiedDiff pre)"
proof -
  from header_step[OF assms] have e: "hunkLines s1 = []" and o: "out = fst (yieldHunkIfNeeded s)"
    by simp_all
  have y1: "yieldHunkIfNeeded s1 = ([], Inr s1)" using e by (rule yieldHunkIfNeeded_empty)
  have m: "fst (processLineU s1 m) = []" if "startsWith m ''diff '' \<or> startsWith m ''@@''"
  proof (cases "startsWith m ''diff ''")
    case True
    then have "\<not> startsWith m ''---''" by (auto simp: startsWith_simps split: list.splits)
    with True y1 show ?thesis by (simp add: processLineU_def handleStateU_def)
  next
    case False
    with that have "startsWith m ''@@''" by simp
    with False y1 show ?thesis by (simp add: processLineU_def split: sum.splits prod.splits)
  qed
  have w: "iterateUnifiedDiff (pre @ [h]) = iterateUnifiedDiff pre" if f: "feedU initialU pre = (o1, Inr s)"
  proof -
    have nd: "\<not> startsWith h ''diff ''"
      using assms(1) by (auto simp: startsWith_simps split: list.splits)
    obtain r where y: "yieldHunkIfNeeded s = (out, r)" using o by (cases "yieldHunkIfNeeded s") simp
    from assms nd y obtain s0 where r: "r = Inr s0"
      by (cases r) (auto simp: processLineU_def)
    have "feedU initialU (pre @ [h]) = (o1 @ out, Inr s1)"
      using feedU_append[OF f, of "[h]"] assms(2) by simp
    then show ?thesis using f y r y1 by (simp add: iterateUnifiedDiff_def)
  qed
  from o y1 m w show ?thesis by blast
qed

theorem empty_hunk_yields_nothing_witness:
  "startsWith ''@@ -1,2 +1,2 @@'' ''@@''
   \<and> processLineU initialU ''@@ -1,2 +1,2 @@''
       = ([], Inr (initialU\<lparr>hunkStartLine := Some ''@@ -1,2 +1,2 @@'', u_startA := Some 1,
            u_deltaA := Some 2, u_startB := Some 1, u_deltaB := Some 2, u_state := UHunk\<rparr>))
   \<and> iterateUnifiedDiff [''@@ -1,2 +1,2 @@''] = ([], None)
   \<and> fst (processLineU (initialU\<lparr>hunkStartLine := Some ''@@ -1,2 +1,2 @@'', u_startA := Some 1,
            u_deltaA := Some 2, u_startB := Some 1, u_deltaB := Some 2, u_state := UHunk\<rparr>)
         ''diff --git a/f b/f'') = []"
proof -
  have a: "startsWith ''@@ -1,2 +1,2 @@'' ''@@''" by (simp add: startsWith_def)
  have b: "processLineU initialU ''@@ -1,2 +1,2 @@''
       = ([], Inr (initialU\<lparr>hunkStartLine := Some ''@@ -1,2 +1,2 @@'', u_startA := Some 1,
            u_deltaA := Some 2, u_startB := Some 1, u_deltaB := Some 2, u_state := UHunk\<rparr>))"
    by (simp add: processLineU_def startsWith_def yieldHunkIfNeeded_def initialU_def
        parseHunkHeaderU_def hunkHeaderOf_def indexOf_def slice_def sliceFrom_def at_def
        parseInt_def isSpace_def isDigit_def digitsVal_def digitVal_def)
  have c: "feedU initialU [] = ([], Inr initialU)" by simp
  have d: "startsWith ''diff --git a/f b/f'' ''diff ''" by (simp add: startsWith_def)
  have e: "iterateUnifiedDiff [] = ([], None)"
    by (simp add: iterateUnifiedDiff_def yieldHunkIfNeeded_def initialU_def)
  from empty_hunk_yields_nothing[OF a b, of "''diff --git a/f b/f''" "[]" "[]"] a b c d e
  show ?thesis by simp
qed

subsection \<open>Context lines in the side-by-side parser\<close>

declare pushNulls.simps [simp del]

lemma pushNulls_eq: "pushNulls xs n = xs @ replicate (n - length xs) None"
proof (induction xs n rule: pushNulls.induct)
  case (1 xs n)
  show ?case
  proof (cases "length xs < n")
    case True
    then have "n - length xs = Suc (n - Suc (length xs))" by simp
    with True "1" show ?thesis
      by (simp add: pushNulls.simps[of xs n] replicate_app_Cons_same)
  next
    case False
    then show ?thesis by (simp add: pushNulls.simps[of xs n])
  qed
qed

lemma hunkCase_context:
  assumes "\<not> startsWith line ''-''" and "\<not> startsWith line ''+''"
  shows "hunkCase s line =
    s\<lparr>hunkLinesA := hunkLinesA s
          @ replicate (max (length (hunkLinesA s)) (length (hunkLinesB s)) - length (hunkLinesA s)) None
          @ [Some line],
      hunkLinesB := hunkLinesB s
          @ replicate (max (length (hunkLinesA s)) (length (hunkLinesB s)) - length (hunkLinesB s)) None
          @ [Some line]\<rparr>"
proof -
  have a: "max (length (hunkLinesA s)) (length (hunkLinesB s)) - length (hunkLinesA s)
      = length (hunkLinesB s) - length (hunkLinesA s)" by simp
  have b: "length (hunkLinesA s) + (length (hunkLinesB s) - length (hunkLinesA s))
      = max (length (hunkLinesA s)) (length (hunkLinesB s))" by simp
  show ?thesis using assms by (simp add: hunkCase_def pushNulls_eq Let_def a b)
qed

lemma hunkCase_extends:
  "state (hunkCase s line) = state s
   \<and> (\<exists>xa. hunkLinesA (hunkCase s line) = hunkLinesA s @ xa)
   \<and> (\<exists>xb. hunkLinesB (hunkCase s line) = hunkLinesB s @ xb)"
  by (simp add: hunkCase_def pushNulls_eq Let_def)

lemma processLine_hunk:
  assumes "state s = Hunk" and "\<not> isMarker line"
  shows "processLine s rawLine line = ([], Inr (hunkCase s line))"
  using assms by (simp add: processLine_def isMarker_def handleState_def)

lemma feed_append:
  "feed re s xs = (o1, Inr s1) \<Longrightarrow>
   feed re s (xs @ ys) = (o1 @ fst (feed re s1 ys), snd (feed re s1 ys))"
proof (induction xs arbitrary: s o1)
  case Nil
  then show ?case by simp
next
  case (Cons x xs)
  obtain out r where step: "processLine s x (replaceAll re x) = (out, r)"
    by (cases "processLine s x (replaceAll re x)")
  show ?case
  proof (cases r)
    case (Inl e)
    with Cons.prems step show ?thesis by simp
  next
    case (Inr s')
    obtain o2 r2 where rest: "feed re s' xs = (o2, r2)" by (cases "feed re s' xs")
    from Cons.prems step Inr rest have r2: "r2 = Inr s1" and o1: "o1 = out @ o2" by auto
    from Cons.IH[OF rest[unfolded r2]] step Inr o1 show ?thesis by simp
  qed
qed

lemma feed_hunk:
  assumes "state s = Hunk" and "\<forall>raw\<in>set ls. \<not> isMarker (replaceAll re raw)"
  shows "\<exists>s'. feed re s ls = ([], Inr s') \<and> state s' = Hunk
     \<and> (\<exists>xa. hunkLinesA s' = hunkLinesA s @ xa) \<and> (\<exists>xb. hunkLinesB s' = hunkLinesB s @ xb)"
  using assms
proof (induction ls arbitrary: s)
  case Nil
  then show ?case by simp
next
  case (Cons raw ls)
  let ?s1 = "hunkCase s (replaceAll re raw)"
  have step: "processLine s raw (replaceAll re raw) = ([], Inr ?s1)"
    using Cons.prems by (simp add: processLine_hunk)
  have st: "state ?s1 = Hunk" using Cons.prems(1) hunkCase_extends[of s] by simp
  from Cons.IH[OF st] Cons.prems(2) obtain s' xa xb where
    f: "feed re ?s1 ls = ([], Inr s')" and s': "state s' = Hunk"
    and a: "hunkLinesA s' = hunkLinesA ?s1 @ xa" and b: "hunkLinesB s' = hunkLinesB ?s1 @ xb"
    by auto
  from hunkCase_extends[of s "replaceAll re raw"] obtain ya yb where
    "hunkLinesA ?s1 = hunkLinesA s @ ya" "hunkLinesB ?s1 = hunkLinesB s @ yb" by auto
  with a b have "hunkLinesA s' = hunkLinesA s @ (ya @ xa)" "hunkLinesB s' = hunkLinesB s @ (yb @ xb)"
    by simp_all
  with step f s' show ?case by auto
qed

text \<open>
  Claim C3. In the Hunk region of the side-by-side parser, for lines none of which is a
  marker: a context line (its sanitized form starts with neither \<open>-\<close> nor \<open>+\<close>) is
  appended to both lists at the same index \<open>k\<close>, the greater of the two lengths before
  it, after the shorter list has been filled with \<^verbatim>\<open>null\<close> up to \<open>k\<close>. Whatever follows in
  the hunk, the entry at \<open>k\<close> stays the line itself on both sides, never a \<^verbatim>\<open>null\<close>.
\<close>

theorem context_line_same_row:
  assumes "state s = Hunk"
    and "\<forall>raw\<in>set (pre @ rawLine # post). \<not> isMarker (replaceAll re raw)"
    and "\<not> startsWith (replaceAll re rawLine) ''-''"
    and "\<not> startsWith (replaceAll re rawLine) ''+''"
  shows "\<exists>s1 s2 s3 k.
       feed re s pre = ([], Inr s1)
     \<and> processLine s1 rawLine (replaceAll re rawLine) = ([], Inr s2)
     \<and> feed re s (pre @ rawLine # post) = ([], Inr s3)
     \<and> k = max (length (hunkLinesA s1)) (length (hunkLinesB s1))
     \<and> hunkLinesA s2 = hunkLinesA s1 @ replicate (k - length (hunkLinesA s1)) None
                         @ [Some (replaceAll re rawLine)]
     \<and> hunkLinesB s2 = hunkLinesB s1 @ replicate (k - length (hunkLinesB s1)) None
                         @ [Some (replaceAll re rawLine)]
     \<and> length (hunkLinesA s2) = Suc k \<and> length (hunkLinesB s2) = Suc k
     \<and> k < length (hunkLinesA s3) \<and> k < length (hunkLinesB s3)
     \<and> hunkLinesA s3 ! k = Some (replaceAll re rawLine)
     \<and> hunkLinesB s3 ! k = Some (replaceAll re rawLine)"
proof -
  let ?line = "replaceAll re rawLine"
  from assms(2) have pre: "\<forall>raw\<in>set pre. \<not> isMarker (replaceAll re raw)"
    and line: "\<not> isMarker ?line"
    and post: "\<forall>raw\<in>set post. \<not> isMarker (replaceAll re raw)" by auto
  from feed_hunk[OF assms(1) pre] obtain s1 where
    f1: "feed re s pre = ([], Inr s1)" and st1: "state s1 = Hunk" by auto
  let ?k = "max (length (hunkLinesA s1)) (length (hunkLinesB s1))"
  let ?s2 = "hunkCase s1 ?line"
  have step: "processLine s1 rawLine ?line = ([], Inr ?s2)"
    using st1 line by (rule processLine_hunk)
  have s2: "?s2 = s1\<lparr>hunkLinesA := hunkLinesA s1 @ replicate (?k - length (hunkLinesA s1)) None @ [Some ?line],
      hunkLinesB := hunkLinesB s1 @ replicate (?k - length (hunkLinesB s1)) None @ [Some ?line]\<rparr>"
    using assms(3,4) by (rule hunkCase_context)
  have a2: "hunkLinesA ?s2 = hunkLinesA s1 @ replicate (?k - length (hunkLinesA s1)) None @ [Some ?line]"
    and b2: "hunkLinesB ?s2 = hunkLinesB s1 @ replicate (?k - length (hunkLinesB s1)) None @ [Some ?line]"
    by (simp_all add: s2)
  have la: "length (hunkLinesA ?s2) = Suc ?k" and lb: "length (hunkLinesB ?s2) = Suc ?k"
    by (simp_all add: a2 b2)
  have st2: "state ?s2 = Hunk" using st1 hunkCase_extends[of s1 ?line] by simp
  from feed_hunk[OF st2 post] obtain s3 xa xb where
    f3: "feed re ?s2 post = ([], Inr s3)"
    and a3: "hunkLinesA s3 = hunkLinesA ?s2 @ xa" and b3: "hunkLinesB s3 = hunkLinesB ?s2 @ xb"
    by auto
  have whole: "feed re s (pre @ rawLine # post) = ([], Inr s3)"
    using feed_append[OF f1, of "rawLine # post"] step f3 by simp
  have na: "hunkLinesA s3 ! ?k = Some ?line"
    using la by (simp add: a3 nth_append a2)
  have nb: "hunkLinesB s3 ! ?k = Some ?line"
    using lb by (simp add: b3 nth_append b2)
  have "length (hunkLinesA s3) = length (hunkLinesA ?s2) + length xa"
    by (simp only: a3 length_append)
  with la have ka: "?k < length (hunkLinesA s3)" by linarith
  have "length (hunkLinesB s3) = length (hunkLinesB ?s2) + length xb"
    by (simp only: b3 length_append)
  with lb have kb: "?k < length (hunkLinesB s3)" by linarith
  from f1 step whole a2 b2 la lb ka kb na nb show ?thesis by blast
qed


theorem context_line_same_row_witness:
  "state (initial\<lparr>state := Hunk\<rparr>) = Hunk
   \<and> \<not> startsWith '' ctx'' ''-'' \<and> \<not> startsWith '' ctx'' ''+''
   \<and> (\<exists>s3. feed ANSI_COLOR_CODE_REGEX (initial\<lparr>state := Hunk\<rparr>)
              [''-a'', ''-b'', ''+c'', '' ctx'', ''+d''] = ([], Inr s3)
         \<and> hunkLinesA s3 ! 2 = Some '' ctx'' \<and> hunkLinesB s3 ! 2 = Some '' ctx''
         \<and> hunkLinesA s3 = [Some ''-a'', Some ''-b'', Some '' ctx'']
         \<and> hunkLinesB s3 = [Some ''+c'', None, Some '' ctx'', Some ''+d''])"
proof -
  let ?re = ANSI_COLOR_CODE_REGEX
  let ?s = "initial\<lparr>state := Hunk\<rparr>"
  have h1: "state ?s = Hunk" by simp
  have h2: "\<forall>raw\<in>set ([''-a'', ''-b'', ''+c''] @ '' ctx'' # [''+d'']). \<not> isMarker (replaceAll ?re raw)"
    by (simp add: ANSI_COLOR_CODE_REGEX_def isMarker_def startsWith_def)
  have h3: "\<not> startsWith (replaceAll ?re '' ctx'') ''-''"
    by (simp add: ANSI_COLOR_CODE_REGEX_def startsWith_def)
  have h4: "\<not> startsWith (replaceAll ?re '' ctx'') ''+''"
    by (simp add: ANSI_COLOR_CODE_REGEX_def startsWith_def)
  have pre: "feed ?re ?s [''-a'', ''-b'', ''+c'']
      = ([], Inr (?s\<lparr>hunkLinesA := [Some ''-a'', Some ''-b''], hunkLinesB := [Some ''+c'']\<rparr>))"
    by (simp add: ANSI_COLOR_CODE_REGEX_def processLine_def handleState_def hunkCase_def
        startsWith_def initial_def)
  have all: "feed ?re ?s [''-a'', ''-b'', ''+c'', '' ctx'', ''+d'']
      = ([], Inr (?s\<lparr>hunkLinesA := [Some ''-a'', Some ''-b'', Some '' ctx''],
                        hunkLinesB := [Some ''+c'', None, Some '' ctx'', Some ''+d'']\<rparr>))"
    by (simp add: ANSI_COLOR_CODE_REGEX_def processLine_def handleState_def hunkCase_def
        startsWith_def initial_def pushNulls.simps)
  from context_line_same_row[OF h1 h2 h3 h4] obtain s1 s3 k where
    f1: "feed ?re ?s [''-a'', ''-b'', ''+c''] = ([], Inr s1)"
    and f3: "feed ?re ?s ([''-a'', ''-b'', ''+c''] @ '' ctx'' # [''+d'']) = ([], Inr s3)"
    and k: "k = max (length (hunkLinesA s1)) (length (hunkLinesB s1))"
    and na: "hunkLinesA s3 ! k = Some (replaceAll ?re '' ctx'')"
    and nb: "hunkLinesB s3 ! k = Some (replaceAll ?re '' ctx'')"
    by blast
  from f1 pre have "s1 = ?s\<lparr>hunkLinesA := [Some ''-a'', Some ''-b''], hunkLinesB := [Some ''+c'']\<rparr>"
    by simp
  with k have k2: "k = 2" by simp
  have ctx: "replaceAll ?re '' ctx'' = '' ctx''" by (simp add: ANSI_COLOR_CODE_REGEX_def)
  from f3 all have s3: "s3 = ?s\<lparr>hunkLinesA := [Some ''-a'', Some ''-b'', Some '' ctx''],
                        hunkLinesB := [Some ''+c'', None, Some '' ctx'', Some ''+d'']\<rparr>"
    by simp
  have c1: "\<not> startsWith '' ctx'' ''-''" and c2: "\<not> startsWith '' ctx'' ''+''"
    by (simp_all add: startsWith_def)
  from na nb k2 ctx have "hunkLinesA s3 ! 2 = Some '' ctx''" "hunkLinesB s3 ! 2 = Some '' ctx''"
    by simp_all
  with h1 c1 c2 all s3 show ?thesis by simp
qed

subsection \<open>The flush at the end of the stream\<close>

lemma handleStateU_marker:
  assumes "startsWith line ''diff ''"
  shows "fst (handleStateU (s\<lparr>u_state := UDiff\<rparr>) line) = []"
proof -
  from assms have "\<not> startsWith line ''---''"
    by (auto simp: startsWith_simps split: list.splits)
  then show ?thesis by (simp add: handleStateU_def)
qed

lemma processLineU_marker_out:
  assumes "isMarkerU line"
  shows "fst (processLineU s line) = fst (yieldHunkIfNeeded s)"
proof (cases "startsWith line ''diff ''")
  case True
  then show ?thesis
    by (auto simp: processLineU_def handleStateU_marker split: prod.splits sum.splits)
next
  case False
  with assms have "startsWith line ''@@''" by (simp add: isMarkerU_def)
  with False show ?thesis
    by (auto simp: processLineU_def split: prod.splits sum.splits)
qed

lemma processLine_hunk_marker_out:
  assumes "state s = Hunk"
  shows "startsWith line ''diff --git'' \<or> startsWith line ''@@ ''
           \<Longrightarrow> fst (processLine s rawLine line) = fst (yieldHunk s)"
    and "startsWith line ''commit ''
           \<Longrightarrow> fst (processLine s rawLine line)
               = fst (yieldHunk s) @ [HORIZONTAL_SEPARATOR, IterFormatCommitLine line]"
proof -
  show "fst (processLine s rawLine line) = fst (yieldHunk s)"
    if m: "startsWith line ''diff --git'' \<or> startsWith line ''@@ ''"
  proof (cases "startsWith line ''diff --git''")
    case True
    then have nc: "\<not> startsWith line ''commit ''"
      by (auto simp: startsWith_simps split: list.splits)
    from True have nf: "\<not> startsWith line ''--- a/''" "\<not> startsWith line ''+++ b/''"
      "\<not> startsWith line ''rename from ''" "\<not> startsWith line ''rename to ''"
      "\<not> startsWith line ''Binary files''"
      by (auto simp: startsWith_simps split: list.splits)
    show ?thesis using assms True nc nf
      by (simp add: processLine_def handleState_def diffCase_def yieldHunk_def split: prod.splits)
  next
    case False
    with m have h: "startsWith line ''@@ ''" by simp
    then have nc: "\<not> startsWith line ''commit ''"
      by (auto simp: startsWith_simps split: list.splits)
    show ?thesis using assms False nc h
      by (auto simp: processLine_def split: prod.splits sum.splits)
  qed
  show "fst (processLine s rawLine line)
               = fst (yieldHunk s) @ [HORIZONTAL_SEPARATOR, IterFormatCommitLine line]"
    if "startsWith line ''commit ''"
    using assms that
    by (simp add: processLine_def handleState_def yieldHunk_def split: prod.splits)
qed

lemma headerKnown_step:
  assumes "headerKnown s" and "processLineU s line = (out, Inr s')"
  shows "headerKnown s'"
proof -
  obtain o1 r1 where y: "yieldHunkIfNeeded s = (o1, r1)" by (cases "yieldHunkIfNeeded s")
  show ?thesis
  proof (cases "isMarkerU line")
    case True
    with assms(2) y obtain s1 where r1: "r1 = Inr s1"
      by (cases r1) (auto simp: processLineU_def isMarkerU_def split: if_splits)
    from yieldHunkIfNeeded_clears[OF y[unfolded r1]] have e: "hunkLines s1 = []" .
    from True assms(2) y r1 e show ?thesis
      by (auto simp: processLineU_def isMarkerU_def headerKnown_def handleStateU_def
          split: if_splits sum.splits prod.splits)
  next
    case False
    with assms show ?thesis
      by (auto simp: processLineU_def isMarkerU_def headerKnown_def handleStateU_def
          split: if_splits ustate.splits)
  qed
qed

lemma headerKnown_feedU:
  "headerKnown s \<Longrightarrow> feedU s ls = (out, Inr s') \<Longrightarrow> headerKnown s'"
proof (induction ls arbitrary: s out)
  case Nil
  then show ?case by simp
next
  case (Cons l ls)
  obtain o1 r1 where step: "processLineU s l = (o1, r1)" by (cases "processLineU s l")
  with Cons.prems(2) obtain s1 where r1: "r1 = Inr s1" by (cases r1) auto
  from headerKnown_step[OF Cons.prems(1) step[unfolded r1]] have h1: "headerKnown s1" .
  obtain o2 r2 where rest: "feedU s1 ls = (o2, r2)" by (cases "feedU s1 ls")
  with Cons.prems(2) step r1 have "r2 = Inr s'" by simp
  with Cons.IH[OF h1] rest show ?case by simp
qed

lemma headerKnown_initialU: "headerKnown initialU"
  by (simp add: headerKnown_def initialU_def)

text \<open>
  Claim C8. When the input ends in the Hunk region, the side-by-side parser ends with
  \<^verbatim>\<open>yieldHunk\<close>: one call of \<^verbatim>\<open>iterFormatHunk\<close> with everything collected, the very
  events that a transition to another region yields first (a commit marker adds the
  separator and its own line). The unified-diff program ends with the same
  \<^verbatim>\<open>yieldHunkIfNeeded\<close> that its two markers call, and a hunk with collected lines
  yields at least its header line.
\<close>

theorem open_hunk_flushed_at_end:
  "(feed re initial lines = (out, Inr s) \<and> state s = Hunk \<longrightarrow>
       iterSideBySideDiffsFormatted re lines = (out @ fst (yieldHunk s), None)
     \<and> fst (yieldHunk s) = [IterFormatHunk (hunkHeaderLine s) (fileNameA s) (fileNameB s)
                               (hunkLinesA s) (hunkLinesB s) (startA s) (startB s)]
     \<and> (startsWith line ''diff --git'' \<or> startsWith line ''@@ '' \<longrightarrow>
          fst (processLine s rawLine line) = fst (yieldHunk s))
     \<and> (startsWith line ''commit '' \<longrightarrow>
          fst (processLine s rawLine line)
            = fst (yieldHunk s) @ [HORIZONTAL_SEPARATOR, IterFormatCommitLine line]))
   \<and> (feedU initialU ulines = (uout, Inr us) \<longrightarrow>
       fst (iterateUnifiedDiff ulines) = uout @ fst (yieldHunkIfNeeded us)
     \<and> (isMarkerU uline \<longrightarrow> fst (processLineU us uline) = fst (yieldHunkIfNeeded us))
     \<and> (hunkLines us \<noteq> [] \<longrightarrow>
          (\<exists>h rows. fst (yieldHunkIfNeeded us) = HUNK_START_COLOR h # rows)))"
proof (intro conjI impI)
  assume a: "feed re initial lines = (out, Inr s) \<and> state s = Hunk"
  then show "iterSideBySideDiffsFormatted re lines = (out @ fst (yieldHunk s), None)"
    by (simp add: iterSideBySideDiffsFormatted_def atEnd_def)
  show "fst (yieldHunk s) = [IterFormatHunk (hunkHeaderLine s) (fileNameA s) (fileNameB s)
                               (hunkLinesA s) (hunkLinesB s) (startA s) (startB s)]"
    by (simp add: yieldHunk_def)
  from a have st: "state s = Hunk" by simp
  show "fst (processLine s rawLine line) = fst (yieldHunk s)"
    if "startsWith line ''diff --git'' \<or> startsWith line ''@@ ''"
    using processLine_hunk_marker_out(1)[OF st that] .
  show "fst (processLine s rawLine line)
            = fst (yieldHunk s) @ [HORIZONTAL_SEPARATOR, IterFormatCommitLine line]"
    if "startsWith line ''commit ''"
    using processLine_hunk_marker_out(2)[OF st that] .
next
  assume f: "feedU initialU ulines = (uout, Inr us)"
  then show "fst (iterateUnifiedDiff ulines) = uout @ fst (yieldHunkIfNeeded us)"
    by (simp add: iterateUnifiedDiff_def)
  show "fst (processLineU us uline) = fst (yieldHunkIfNeeded us)" if "isMarkerU uline"
    using that by (rule processLineU_marker_out)
  show "\<exists>h rows. fst (yieldHunkIfNeeded us) = HUNK_START_COLOR h # rows" if ne: "hunkLines us \<noteq> []"
  proof -
    from headerKnown_feedU[OF headerKnown_initialU f] ne obtain h where "hunkStartLine us = Some h"
      by (auto simp: headerKnown_def)
    with ne show ?thesis
      by (simp add: yieldHunkIfNeeded_def Let_def split: prod.splits)
  qed
qed



theorem open_hunk_flushed_at_end_witness:
  "feed ANSI_COLOR_CODE_REGEX initial
       [''diff --git a/f b/f'', ''--- a/f'', ''+++ b/f'', ''@@ -1,1 +1,1 @@'', ''-a'', ''+b'']
     = ([IterFormatFileName (Some ''f'') (Some ''f'')],
        Inr \<lparr>state = Hunk, fileNameA = Some ''f'', fileNameB = Some ''f'',
          startA = Some 1, startB = Some 1, hunkHeaderLine = ''@@ -1,1 +1,1 @@'',
          hunkLinesA = [Some ''-a''], hunkLinesB = [Some ''+b'']\<rparr>)
   \<and> iterSideBySideDiffsFormatted ANSI_COLOR_CODE_REGEX
       [''diff --git a/f b/f'', ''--- a/f'', ''+++ b/f'', ''@@ -1,1 +1,1 @@'', ''-a'', ''+b'']
     = ([IterFormatFileName (Some ''f'') (Some ''f''),
         IterFormatHunk ''@@ -1,1 +1,1 @@'' (Some ''f'') (Some ''f'')
           [Some ''-a''] [Some ''+b''] (Some 1) (Some 1)], None)
   \<and> feedU initialU
       [''diff --git a/f b/f'', ''--- a/f'', ''+++ b/f'', ''@@ -1,1 +1,1 @@'', ''-a'', ''+b'']
     = ([FILE_NAME_COLOR ''f''],
        Inr \<lparr>u_state = UHunk, u_startA = Some 1, u_deltaA = Some 1,
          u_startB = Some 1, u_deltaB = Some 1, hunkStartLine = Some ''@@ -1,1 +1,1 @@'',
          hunkLines = [''-a'', ''+b'']\<rparr>)
   \<and> fst (iterateUnifiedDiff
       [''diff --git a/f b/f'', ''--- a/f'', ''+++ b/f'', ''@@ -1,1 +1,1 @@'', ''-a'', ''+b''])
     = [FILE_NAME_COLOR ''f'', HUNK_START_COLOR ''@@ -1,1 +1,1 @@'',
        Row \<lparr>lineColor = DELETED_LINE_COLOR, lineNo = Some 2, linePrefix = ''-'',
              lineWithoutPrefix = ''a''\<rparr>
            \<lparr>lineColor = INSERTED_LINE_COLOR, lineNo = Some 2, linePrefix = ''+'',
              lineWithoutPrefix = ''b''\<rparr>]"
proof -
  let ?L = "[''diff --git a/f b/f'', ''--- a/f'', ''+++ b/f'', ''@@ -1,1 +1,1 @@'', ''-a'', ''+b'']"
  let ?S = "\<lparr>state = Hunk, fileNameA = Some ''f'', fileNameB = Some ''f'',
          startA = Some 1, startB = Some 1, hunkHeaderLine = ''@@ -1,1 +1,1 @@'',
          hunkLinesA = [Some ''-a''], hunkLinesB = [Some ''+b'']\<rparr>"
  let ?U = "\<lparr>u_state = UHunk, u_startA = Some 1, u_deltaA = Some 1,
          u_startB = Some 1, u_deltaB = Some 1, hunkStartLine = Some ''@@ -1,1 +1,1 @@'',
          hunkLines = [''-a'', ''+b'']\<rparr>"
  have f: "feed ANSI_COLOR_CODE_REGEX initial ?L = ([IterFormatFileName (Some ''f'') (Some ''f'')], Inr ?S)"
    by code_simp
  have st: "state ?S = Hunk" by simp
  have fu: "feedU initialU ?L = ([FILE_NAME_COLOR ''f''], Inr ?U)"
    by code_simp
  have y: "fst (yieldHunkIfNeeded ?U)
     = [HUNK_START_COLOR ''@@ -1,1 +1,1 @@'',
        Row \<lparr>lineColor = DELETED_LINE_COLOR, lineNo = Some 2, linePrefix = ''-'',
              lineWithoutPrefix = ''a''\<rparr>
            \<lparr>lineColor = INSERTED_LINE_COLOR, lineNo = Some 2, linePrefix = ''+'',
              lineWithoutPrefix = ''b''\<rparr>]"
    by code_simp
  note t = open_hunk_flushed_at_end[of ANSI_COLOR_CODE_REGEX ?L
      "[IterFormatFileName (Some ''f'') (Some ''f'')]" ?S "''diff --git''" "''diff --git''"
      ?L "[FILE_NAME_COLOR ''f'']" ?U "''diff ''"]
  from t f st have a: "iterSideBySideDiffsFormatted ANSI_COLOR_CODE_REGEX ?L
      = ([IterFormatFileName (Some ''f'') (Some ''f'')] @ fst (yieldHunk ?S), None)"
    by blast
  from t fu have b: "fst (iterateUnifiedDiff ?L) = [FILE_NAME_COLOR ''f''] @ fst (yieldHunkIfNeeded ?U)"
    by blast
  from a have a': "iterSideBySideDiffsFormatted ANSI_COLOR_CODE_REGEX ?L
     = ([IterFormatFileName (Some ''f'') (Some ''f''),
         IterFormatHunk ''@@ -1,1 +1,1 @@'' (Some ''f'') (Some ''f'')
           [Some ''-a''] [Some ''+b''] (Some 1) (Some 1)], None)"
    by (simp add: yieldHunk_def)
  from b y have b': "fst (iterateUnifiedDiff ?L)
     = [FILE_NAME_COLOR ''f'', HUNK_START_COLOR ''@@ -1,1 +1,1 @@'',
        Row \<lparr>lineColor = DELETED_LINE_COLOR, lineNo = Some 2, linePrefix = ''-'',
              lineWithoutPrefix = ''a''\<rparr>
            \<lparr>lineColor = INSERTED_LINE_COLOR, lineNo = Some 2, linePrefix = ''+'',
              lineWithoutPrefix = ''b''\<rparr>]"
    by simp
  from f a' fu b' show ?thesis by blast
qed

subsection \<open>Which lines trigger a transition\<close>

lemma isMarker_cases:
  "startsWith line ''@@'' \<Longrightarrow> \<not> startsWith line ''@@ '' \<Longrightarrow> \<not> isMarker line"
  "startsWith line ''diff'' \<Longrightarrow> \<not> startsWith line ''diff --git'' \<Longrightarrow> \<not> isMarker line"
  by (auto simp: isMarker_def startsWith_simps split: list.splits)

lemma processLine_no_marker:
  assumes "\<not> isMarker line"
  shows "processLine s rawLine line
           = (fst (handleState s rawLine line), Inr (snd (handleState s rawLine line)))"
    and "state (snd (handleState s rawLine line)) = state s"
proof -
  show "processLine s rawLine line
           = (fst (handleState s rawLine line), Inr (snd (handleState s rawLine line)))"
    using assms by (simp add: processLine_def isMarker_def split: prod.splits)
  show "state (snd (handleState s rawLine line)) = state s"
    by (cases "state s")
       (simp_all add: handleState_def diffCase_def hunkCase_def Let_def split: option.splits prod.splits)
qed

lemma processLineU_no_marker:
  assumes "\<not> isMarkerU line"
  shows "processLineU u line = (fst (handleStateU u line), Inr (snd (handleStateU u line)))"
    and "u_state (snd (handleStateU u line)) = u_state u"
proof -
  show "processLineU u line = (fst (handleStateU u line), Inr (snd (handleStateU u line)))"
    using assms by (simp add: processLineU_def isMarkerU_def)
  show "u_state (snd (handleStateU u line)) = u_state u"
    by (cases "u_state u") (simp_all add: handleStateU_def)
qed

lemma processLineU_marker_state:
  assumes "snd (processLineU u line) = Inr u'"
  shows "startsWith line ''diff '' \<Longrightarrow> u_state u' = UDiff"
    and "startsWith line ''@@'' \<Longrightarrow> u_state u' = UHunk"
proof -
  show "u_state u' = UDiff" if "startsWith line ''diff ''"
    using assms that
    by (auto simp: processLineU_def handleStateU_def split: prod.splits sum.splits)
  show "u_state u' = UHunk" if h: "startsWith line ''@@''"
  proof -
    from h have "\<not> startsWith line ''diff ''"
      by (auto simp: startsWith_simps split: list.splits)
    with assms h show ?thesis
      by (auto simp: processLineU_def split: prod.splits sum.splits)
  qed
qed

text \<open>
  Claim C6, as amended. In the side-by-side parser a line that starts with none of
  \<open>commit \<close>, \<open>diff --git\<close> and \<open>@@ \<close> goes to the switch on the current region and
  leaves the region as it is; so does every line that starts with \<open>@@\<close> but not \<open>@@ \<close>,
  or with \<open>diff\<close> but not \<open>diff --git\<close>. The unified-diff parser has markers of its
  own, \<open>diff \<close> and \<open>@@\<close>, and no commit marker: a line that starts with neither goes
  to the switch and leaves the state as it is, a line that starts with \<open>diff \<close> enters
  the diff state and a line that starts with \<open>@@\<close> the hunk state, unless the turn
  throws.
\<close>

theorem transitions_only_on_markers:
  "(\<not> isMarker line \<longrightarrow>
      processLine s rawLine line
        = (fst (handleState s rawLine line), Inr (snd (handleState s rawLine line)))
      \<and> state (snd (handleState s rawLine line)) = state s)
   \<and> (startsWith line ''@@'' \<and> \<not> startsWith line ''@@ '' \<longrightarrow> \<not> isMarker line)
   \<and> (startsWith line ''diff'' \<and> \<not> startsWith line ''diff --git'' \<longrightarrow> \<not> isMarker line)
   \<and> (\<not> isMarkerU line \<longrightarrow>
      processLineU u line = (fst (handleStateU u line), Inr (snd (handleStateU u line)))
      \<and> u_state (snd (handleStateU u line)) = u_state u)
   \<and> (startsWith line ''diff '' \<and> snd (processLineU u line) = Inr u' \<longrightarrow> u_state u' = UDiff)
   \<and> (startsWith line ''@@'' \<and> snd (processLineU u line) = Inr u' \<longrightarrow> u_state u' = UHunk)"
  using isMarker_cases[of line] processLine_no_marker[of line s rawLine]
    processLineU_no_marker[of line u] processLineU_marker_state[of u line u']
  by blast

theorem transitions_only_on_markers_witness:
  "startsWith ''@@@ -1 -1 +1 @@@'' ''@@'' \<and> \<not> startsWith ''@@@ -1 -1 +1 @@@'' ''@@ ''
   \<and> \<not> isMarker ''@@@ -1 -1 +1 @@@''
   \<and> processLine (initial\<lparr>state := Commit\<rparr>) ''@@@ -1 -1 +1 @@@'' ''@@@ -1 -1 +1 @@@''
       = ([IterFormatCommitLine ''@@@ -1 -1 +1 @@@''], Inr (initial\<lparr>state := Commit\<rparr>))
   \<and> \<not> isMarkerU ''index 12..34''
   \<and> processLineU initialU ''index 12..34'' = ([Line ''index 12..34''], Inr initialU)"
proof -
  let ?l = "''@@@ -1 -1 +1 @@@''"
  let ?m = "''index 12..34''"
  let ?c = "initial\<lparr>state := Commit\<rparr>"
  have a: "startsWith ?l ''@@''" and b: "\<not> startsWith ?l ''@@ ''"
    by (simp_all add: startsWith_def)
  have c: "\<not> isMarkerU ?m" by (simp add: isMarkerU_def startsWith_def)
  from transitions_only_on_markers[of ?l ?c ?l] a b
  have n: "\<not> isMarker ?l"
    and p: "processLine ?c ?l ?l = (fst (handleState ?c ?l ?l), Inr (snd (handleState ?c ?l ?l)))"
    by blast+
  have h: "handleState ?c ?l ?l = ([IterFormatCommitLine ?l], ?c)"
    by (simp add: handleState_def initial_def)
  from transitions_only_on_markers[of ?m _ _ initialU] c
  have q: "processLineU initialU ?m
      = (fst (handleStateU initialU ?m), Inr (snd (handleStateU initialU ?m)))"
    by blast
  have k: "handleStateU initialU ?m = ([Line ?m], initialU)"
    by (simp add: handleStateU_def initialU_def)
  from a b n p h c q k show ?thesis by simp
qed

text \<open>
  The claim as stated fails in the unified-diff parser: the line \<open>diff x\<close> starts with
  \<open>diff\<close> but not with \<open>diff --git\<close>, and in the commit state it is not passed through
  as the switch would do, but moves the parser to the diff state.
\<close>

theorem unified_diff_marker_counterexample:
  "startsWith ''diff x'' ''diff'' \<and> \<not> startsWith ''diff x'' ''diff --git''
   \<and> u_state initialU = UCommit
   \<and> handleStateU initialU ''diff x'' = ([Line ''diff x''], initialU)
   \<and> processLineU initialU ''diff x'' = ([], Inr (initialU\<lparr>u_state := UDiff\<rparr>))"
  by (simp add: processLineU_def startsWith_def yieldHunkIfNeeded_def initialU_def handleStateU_def)

subsection \<open>Malformed hunk headers\<close>














subsection \<open>The rows of a hunk in the unified-diff program\<close>

declare hunkRows.simps [simp del]








subsection \<open>The sanitizer\<close>









subsection \<open>Runs of the code at inputs where it departs from the specification\<close>

text \<open>
  Claim C2. The header \<open>@@ -10,2 +15,2 @@\<close> says that the hunk starts at line 10 of the
  old file and line 15 of the new one. \<^verbatim>\<open>yieldHunkIfNeeded\<close> adds one to the number
  before it formats the row, so the first row shows 11 and 16.
\<close>

theorem first_row_shows_start_plus_one:
  "iterateUnifiedDiff [''@@ -10,2 +15,2 @@ func foo()'', '' a'', ''-b'', ''+c'']
     = ([HUNK_START_COLOR ''@@ -10,2 +15,2 @@ func foo()'',
         Row \<lparr>lineColor = UNMODIFIED_LINE_COLOR, lineNo = Some 11,
               linePrefix = '' '', lineWithoutPrefix = ''a''\<rparr>
             \<lparr>lineColor = UNMODIFIED_LINE_COLOR, lineNo = Some 16,
               linePrefix = '' '', lineWithoutPrefix = ''a''\<rparr>,
         Row \<lparr>lineColor = DELETED_LINE_COLOR, lineNo = Some 12,
               linePrefix = ''-'', lineWithoutPrefix = ''b''\<rparr>
             \<lparr>lineColor = INSERTED_LINE_COLOR, lineNo = Some 17,
               linePrefix = ''+'', lineWithoutPrefix = ''c''\<rparr>],
        None)"
  by code_simp

text \<open>
  Claim C4. The stream \<open>ab\<close>, \<open>cd\<close> and a newline, in two chunks, is the one line
  \<open>abcd\<close>. \<^verbatim>\<open>iterateReadableLinesAsync\<close> yields it, then the empty string after the last
  newline of the chunk, and after the stream has ended the fragment \<open>ab\<close> once more:
  \<^verbatim>\<open>prevLine\<close> is never cleared.
\<close>

theorem reassembler_repeats_fragment:
  "iterateReadableLinesAsync [''ab'', [CHR ''c'', CHR ''d'', CHR 0x0A]] = [''abcd'', [], ''ab'']"
  by (simp add: iterateReadableLinesAsync_def truthy_def consHead_def)

text \<open>
  Claim C5. On the line \<open>Binary files a/x.bin and /dev/null differ\<close> the second group
  of the pattern takes no part in the match, so the destructuring stores \<^verbatim>\<open>undefined\<close>
  in \<^verbatim>\<open>fileNameB\<close>, not the empty string; \<^verbatim>\<open>fileNameA\<close> becomes \<open>x.bin\<close>.
\<close>

theorem binary_diff_unmatched_group_is_undefined:
  "diffCase s ''Binary files a/x.bin and /dev/null differ''
     = s\<lparr>fileNameA := Some ''x.bin'', fileNameB := None\<rparr>
   \<and> iterSideBySideDiffsFormatted ANSI_COLOR_CODE_REGEX
       [''diff --git a/x.bin b/x.bin'', ''deleted file mode 100644'',
        ''Binary files a/x.bin and /dev/null differ'']
     = ([IterFormatFileName (Some ''x.bin'') None], None)"
proof -
  have m: "matchGroups BINARY_FILES_DIFF_REGEX ''Binary files a/x.bin and /dev/null differ''
      = Some (Some ''x.bin'', None)"
    by code_simp
  have a: "diffCase s ''Binary files a/x.bin and /dev/null differ''
     = s\<lparr>fileNameA := Some ''x.bin'', fileNameB := None\<rparr>"
    by (simp add: diffCase_def m startsWith_def)
  have b: "iterSideBySideDiffsFormatted ANSI_COLOR_CODE_REGEX
       [''diff --git a/x.bin b/x.bin'', ''deleted file mode 100644'',
        ''Binary files a/x.bin and /dev/null differ'']
     = ([IterFormatFileName (Some ''x.bin'') None], None)"
    by code_simp
  from a b show ?thesis by simp
qed

end
